theory Spec2Isabelle
  imports Complex_Main "HOL-Library.Word"
begin

section \<open>Audio utilities (ArenaView, AUDIO UTILS)\<close>

text \<open>
  A \<open>Float32Array\<close> sample is modelled by the real number it denotes. The products
  \<open>s * 0x8000\<close> and \<open>s * 0x7FFF\<close> of a clamped float32 sample with a 16-bit constant
  need at most 40 significant bits, so they are exact in double precision and the real
  product is what the code computes. \<open>NaN\<close> samples are outside this model.
  An \<open>ArrayBuffer\<close> is the list of its bytes.
\<close>

type_synonym byte = "8 word"
type_synonym int16 = "16 word"

text \<open>\<open>ToInt16\<close> of a finite number, as \<open>DataView.setInt16\<close> applies it: truncate
  towards zero, then reduce modulo \<open>2^16\<close> into the signed range.\<close>

definition trunc :: "real \<Rightarrow> int" where
  "trunc v = (if v < 0 then \<lceil>v\<rceil> else \<lfloor>v\<rfloor>)"

definition ToInt16 :: "real \<Rightarrow> int16" where
  "ToInt16 v = word_of_int (trunc v)"

text \<open>\<open>view.setInt16(offset, v, true)\<close>: the two bytes written, low byte first.\<close>

definition setInt16_le :: "real \<Rightarrow> byte list" where
  "setInt16_le v = (let w = ToInt16 v in [ucast w, ucast (drop_bit 8 w)])"

text \<open>\<open>view.getInt16(offset, true)\<close>: the signed little-endian reading of two bytes of a
  buffer; \<open>None\<close> where the \<open>DataView\<close> raises a \<open>RangeError\<close>.\<close>

definition getInt16_le :: "byte list \<Rightarrow> nat \<Rightarrow> int option" where
  "getInt16_le buf off =
     (if off + 2 \<le> length buf
      then Some (sint (word_cat (buf ! (off + 1)) (buf ! off) :: int16))
      else None)"

definition pcm_sample :: "real \<Rightarrow> real" where
  "pcm_sample f = (let s = max (-1) (min 1 f) in if s < 0 then s * 32768 else s * 32767)"

fun floatTo16BitPCM :: "real list \<Rightarrow> byte list" where
  "floatTo16BitPCM [] = []"
| "floatTo16BitPCM (f # fs) = setInt16_le (pcm_sample f) @ floatTo16BitPCM fs"

section \<open>Session result (ArenaView, formatTime and the two onEnd call sites)\<close>

definition digit_char :: "nat \<Rightarrow> char" where
  "digit_char d = char_of (48 + d)"

text \<open>\<open>Number.prototype.toString()\<close> on a non-negative integer: its decimal digits.\<close>

fun toString :: "nat \<Rightarrow> string" where
  "toString n = (if n < 10 then [digit_char n] else toString (n div 10) @ [digit_char (n mod 10)])"

declare toString.simps [simp del]

definition padStart :: "nat \<Rightarrow> char \<Rightarrow> string \<Rightarrow> string" where
  "padStart targetLength c s = replicate (targetLength - length s) c @ s"

definition formatTime :: "nat \<Rightarrow> string" where
  "formatTime seconds =
     (let mins = seconds div 60; secs = seconds mod 60
      in padStart 2 (CHR ''0'') (toString mins) @ '':'' @ padStart 2 (CHR ''0'') (toString secs))"

record TranscriptEntry =
  role :: string
  text_of :: string
  timestamp :: nat

record SessionData =
  duration :: string
  topic :: string
  transcript :: "TranscriptEntry list"
  images :: "string list"

text \<open>The End Session button: \<open>onEnd({duration: formatTime(elapsedTime), topic,
  transcript: transcriptRef.current, images: []})\<close>.\<close>

definition endSession_onEnd :: "nat \<Rightarrow> string \<Rightarrow> TranscriptEntry list \<Rightarrow> SessionData" where
  "endSession_onEnd elapsedTime tp transcriptRef =
     \<lparr>duration = formatTime elapsedTime, topic = tp, transcript = transcriptRef, images = []\<rparr>"

text \<open>The error overlay's Return to Home button: \<open>onEnd({duration: '0:00', topic,
  transcript: [], images: []})\<close>. The elapsed time is not read.\<close>

definition returnToHome_onEnd :: "nat \<Rightarrow> string \<Rightarrow> TranscriptEntry list \<Rightarrow> SessionData" where
  "returnToHome_onEnd elapsedTime tp transcriptRef =
     \<lparr>duration = ''0:00'', topic = tp, transcript = [], images = []\<rparr>"

text \<open>The shape \<open>MM:SS\<close>: two decimal digits, a colon, two decimal digits.\<close>

definition is_digit :: "char \<Rightarrow> bool" where
  "is_digit c = ((48::nat) \<le> of_char c \<and> of_char c \<le> (57::nat))"

fun is_MMSS :: "string \<Rightarrow> bool" where
  "is_MMSS [m1, m0, c, s1, s0] =
     (is_digit m1 \<and> is_digit m0 \<and> c = CHR '':'' \<and> is_digit s1 \<and> is_digit s0)"
| "is_MMSS _ = False"

section \<open>Drawing surface (ArenaView, content state)\<close>

text \<open>An object \<open>{x, y}\<close> is a pair of reals, first component \<open>x\<close>.\<close>

type_synonym point = "real \<times> real"

record path =
  path_d :: string
  path_color :: string
  path_width :: nat

record sticky_note =
  note_pos :: point
  note_text :: string

record shape =
  shape_pos :: point
  shape_color :: string

record surface =
  paths :: "path list"
  currentPath :: string
  notes_of :: "sticky_note list"
  shapes :: "shape list"

text \<open>\<open>p.slice(0, -1)\<close>: all elements but the last; the empty array for the empty array.\<close>

definition slice_0_minus1 :: "'a list \<Rightarrow> 'a list" where
  "slice_0_minus1 p = take (length p - 1) p"

text \<open>The toolbar's undo: \<open>setPaths(p => p.slice(0, -1))\<close>.\<close>

definition undo :: "surface \<Rightarrow> surface" where
  "undo s = s\<lparr>paths := slice_0_minus1 (paths s)\<rparr>"

section \<open>Viewport transform (ArenaView, canvas state and interaction logic)\<close>

record viewport =
  scale :: real
  offset :: point
  viewportSize :: "real \<times> real"

text \<open>The rendered \<open>transform\<close> of the world container,
  \<open>translate(cx + offset.x, cy + offset.y) scale(scale)\<close>: where a world point lands,
  relative to the canvas container.\<close>

definition transform :: "viewport \<Rightarrow> point \<Rightarrow> point" where
  "transform v p =
     (let cx = fst (viewportSize v) / 2; cy = snd (viewportSize v) / 2
      in (cx + fst (offset v) + scale v * fst p, cy + snd (offset v) + scale v * snd p))"

text \<open>\<open>screenToWorld\<close>. The argument \<open>rect\<close> is
  \<open>containerRef.current?.getBoundingClientRect()\<close> as \<open>(left, top)\<close>, \<open>None\<close> when the
  container is not mounted: \<open>rect?.left || 0\<close>. The quotient by \<open>scale\<close> is the real
  quotient; at \<open>scale = 0\<close> JavaScript yields \<open>NaN\<close> or an infinity and HOL yields 0, so
  the model says nothing there.\<close>

definition screenToWorld :: "viewport \<Rightarrow> point option \<Rightarrow> real \<Rightarrow> real \<Rightarrow> point" where
  "screenToWorld v rect screenX screenY =
     (let cx = fst (viewportSize v) / 2;
          cy = snd (viewportSize v) / 2;
          relX = screenX - (case rect of None \<Rightarrow> 0 | Some r \<Rightarrow> fst r);
          relY = screenY - (case rect of None \<Rightarrow> 0 | Some r \<Rightarrow> snd r)
      in ((relX - cx - fst (offset v)) / scale v, (relY - cy - snd (offset v)) / scale v))"

record WheelEvent =
  ctrlKey :: bool
  metaKey :: bool
  deltaX :: real
  deltaY :: real

definition handleWheel :: "WheelEvent \<Rightarrow> viewport \<Rightarrow> viewport" where
  "handleWheel e v =
     (if ctrlKey e \<or> metaKey e
      then (let zoomSensitivity = 1 / 1000;
                newScale = min (max (1 / 10) (scale v - deltaY e * zoomSensitivity)) 5
            in v\<lparr>scale := newScale\<rparr>)
      else v\<lparr>offset := (fst (offset v) - deltaX e, snd (offset v) - deltaY e)\<rparr>)"

text \<open>A drag with the hand tool (\<open>handleMouseMove\<close>): the screen delta is added to the
  offset.\<close>

definition pan :: "real \<Rightarrow> real \<Rightarrow> viewport \<Rightarrow> viewport" where
  "pan dx dy v = v\<lparr>offset := (fst (offset v) + dx, snd (offset v) + dy)\<rparr>"

text \<open>What is rendered depends on the connection state: the loading overlay while
  initializing, the error overlay in the error state, the canvas otherwise.
  \<open>containerRef.current\<close> is the canvas container, given by its
  \<open>(clientWidth, clientHeight)\<close>, when the canvas is rendered, and \<open>null\<close> otherwise.\<close>

datatype connection_state = Initializing | Connected | Error | Disconnected

definition containerRef_current :: "connection_state \<Rightarrow> real \<times> real \<Rightarrow> (real \<times> real) option" where
  "containerRef_current connectionState clientSize =
     (case connectionState of
        Initializing \<Rightarrow> None
      | Error \<Rightarrow> None
      | Connected \<Rightarrow> Some clientSize
      | Disconnected \<Rightarrow> Some clientSize)"

text \<open>The canvas state of a new arena: \<open>useState(1)\<close>, \<open>useState({x: 0, y: 0})\<close>,
  \<open>useState({w: 0, h: 0})\<close>.\<close>

definition initial_viewport :: viewport where
  "initial_viewport = \<lparr>scale = 1, offset = (0, 0), viewportSize = (0, 0)\<rparr>"

text \<open>The Set Viewport effect: \<open>if (containerRef.current) setViewportSize(...)\<close>.\<close>

definition set_viewport_effect :: "(real \<times> real) option \<Rightarrow> viewport \<Rightarrow> viewport" where
  "set_viewport_effect container v =
     (case container of None \<Rightarrow> v | Some clientSize \<Rightarrow> v\<lparr>viewportSize := clientSize\<rparr>)"

text \<open>The effect has the dependency list \<open>[]\<close>: it runs once, after the first render, and
  the connection state of the first render is the initial \<open>initializing\<close>. It is the only
  code that writes \<open>viewportSize\<close>. The argument is the size the canvas container has
  once it is rendered.\<close>

definition mount_viewport :: "real \<times> real \<Rightarrow> viewport" where
  "mount_viewport clientSize =
     set_viewport_effect (containerRef_current Initializing clientSize) initial_viewport"

text \<open>The gestures that write the viewport afterwards.\<close>

datatype viewport_event = Wheel WheelEvent | Drag real real

fun viewport_step :: "viewport \<Rightarrow> viewport_event \<Rightarrow> viewport" where
  "viewport_step v (Wheel e) = handleWheel e v"
| "viewport_step v (Drag dx dy) = pan dx dy v"

section \<open>Audio playback scheduler (connectToLiveAPI, onmessage)\<close>

datatype js_error = InvalidCharacterError | RangeError | NotSupportedError

text \<open>\<open>base64ToUint8Array\<close>. The platform's \<open>atob\<close> is a parameter: it returns the
  binary string, one character per byte, or \<open>None\<close> where it raises.\<close>

definition base64ToUint8Array :: "(string \<Rightarrow> string option) \<Rightarrow> string \<Rightarrow> js_error + byte list" where
  "base64ToUint8Array atob base64 =
     (case atob base64 of
        None \<Rightarrow> Inl InvalidCharacterError
      | Some binaryString \<Rightarrow> Inr (map (\<lambda>c. of_char c) binaryString))"

fun int16_elements :: "byte list \<Rightarrow> int list" where
  "int16_elements (lo # hi # rest) = sint (word_cat hi lo :: int16) # int16_elements rest"
| "int16_elements _ = []"

text \<open>\<open>new Int16Array(byteArr.buffer)\<close>: a \<open>RangeError\<close> unless the byte length is a
  multiple of 2; elements are read low byte first.\<close>

definition new_Int16Array :: "byte list \<Rightarrow> js_error + int list" where
  "new_Int16Array buf =
     (if length buf mod 2 = 0 then Inr (int16_elements buf) else Inl RangeError)"

record AudioBuffer =
  channelData :: "real list"
  sampleRate :: nat

text \<open>\<open>ctx.createBuffer(1, length, sampleRate)\<close> followed by \<open>copyToChannel\<close>: a
  \<open>NotSupportedError\<close> for a buffer of no frames.\<close>

definition createBuffer :: "real list \<Rightarrow> nat \<Rightarrow> js_error + AudioBuffer" where
  "createBuffer float32 rate =
     (if length float32 = 0 then Inl NotSupportedError
      else Inr \<lparr>channelData = float32, sampleRate = rate\<rparr>)"

definition buffer_duration :: "AudioBuffer \<Rightarrow> real" where
  "buffer_duration b = real (length (channelData b)) / real (sampleRate b)"

record source_node =
  node_id :: nat
  node_buffer :: AudioBuffer
  startAt :: real

text \<open>The fields of the message that \<open>onmessage\<close> reads:
  \<open>msg.serverContent?.modelTurn?.parts?.[0]?.inlineData?.data\<close> (\<open>None\<close> when any link
  is undefined) and the truthiness of \<open>serverContent?.turnComplete\<close> and
  \<open>serverContent?.interrupted\<close>.\<close>

record LiveServerMessage =
  audioData :: "string option"
  turnComplete :: bool
  interrupted :: bool

text \<open>The scheduler's mutable cells. \<open>created\<close> counts the source nodes made so far and
  gives each its identity; \<open>started\<close> and \<open>stopped\<close> log the calls of \<open>start(when)\<close>
  and \<open>stop()\<close> on the output device. \<open>sourceNodesRef\<close> is a \<open>Set\<close>, kept in insertion
  order.\<close>

record playback =
  isAiSpeaking :: bool
  nextStartTimeRef :: real
  sourceNodesRef :: "source_node list"
  transcriptRef :: "TranscriptEntry list"
  created :: nat
  started :: "source_node list"
  stopped :: "nat list"

definition truthy :: "string option \<Rightarrow> bool" where
  "truthy a = (case a of None \<Rightarrow> False | Some t \<Rightarrow> t \<noteq> [])"

text \<open>The audio branch of \<open>onmessage\<close>. A raise leaves the handler at once, with the
  writes made so far in place; the second component is the exception, if any.\<close>

definition handle_audio ::
  "(string \<Rightarrow> string option) \<Rightarrow> real \<Rightarrow> string \<Rightarrow> playback \<Rightarrow> playback \<times> js_error option" where
  "handle_audio atob currentTime a s0 =
     (let s = s0\<lparr>isAiSpeaking := True\<rparr> in
      case base64ToUint8Array atob a of
        Inl e \<Rightarrow> (s, Some e)
      | Inr byteArr \<Rightarrow>
          (case new_Int16Array byteArr of
             Inl e \<Rightarrow> (s, Some e)
           | Inr dataInt16 \<Rightarrow>
               (let float32 = map (\<lambda>v. real_of_int v / 32768) dataInt16 in
                case createBuffer float32 24000 of
                  Inl e \<Rightarrow> (s, Some e)
                | Inr buffer \<Rightarrow>
                    (let t = (if nextStartTimeRef s < currentTime then currentTime
                              else nextStartTimeRef s);
                         audioSource = \<lparr>node_id = created s, node_buffer = buffer, startAt = t\<rparr>
                     in (s\<lparr>nextStartTimeRef := t + buffer_duration buffer,
                            sourceNodesRef := sourceNodesRef s @ [audioSource],
                            created := Suc (created s),
                            started := started s @ [audioSource]\<rparr>, None)))))"

text \<open>The interrupted branch: every tracked node is stopped and the set cleared.\<close>

definition handle_interrupted :: "playback \<Rightarrow> playback" where
  "handle_interrupted s =
     s\<lparr>isAiSpeaking := False,
       nextStartTimeRef := 0,
       stopped := stopped s @ map node_id (sourceNodesRef s),
       sourceNodesRef := []\<rparr>"

text \<open>\<open>onmessage\<close>, with the output clock \<open>ctx.currentTime\<close> and \<open>Date.now()\<close> as
  arguments. The handler is \<open>async\<close> and awaits nothing: it runs to its end, or to its
  first raise, which rejects its promise and skips the branches after it.\<close>

definition onmessage ::
  "(string \<Rightarrow> string option) \<Rightarrow> real \<Rightarrow> nat \<Rightarrow> playback \<Rightarrow> LiveServerMessage
     \<Rightarrow> playback \<times> js_error option" where
  "onmessage atob currentTime dateNow s msg =
     (case (if truthy (audioData msg) then handle_audio atob currentTime (the (audioData msg)) s
            else (s, None)) of
        (s1, Some e) \<Rightarrow> (s1, Some e)
      | (s1, None) \<Rightarrow>
          (let s2 = (if turnComplete msg
                     then s1\<lparr>transcriptRef := transcriptRef s1 @
                            [\<lparr>role = ''model'', text_of = ''(Audio Response)'', timestamp = dateNow\<rparr>]\<rparr>
                     else s1);
               s3 = (if interrupted msg then handle_interrupted s2 else s2)
           in (s3, None)))"

text \<open>\<open>audioSource.onended\<close> of the node with the given identity.\<close>

definition onended :: "nat \<Rightarrow> playback \<Rightarrow> playback" where
  "onended n s =
     (let nodes = filter (\<lambda>x. node_id x \<noteq> n) (sourceNodesRef s)
      in s\<lparr>sourceNodesRef := nodes,
           isAiSpeaking := (if length nodes = 0 then False else isAiSpeaking s)\<rparr>)"

text \<open>The event sources of the scheduler, multiplexed on one control flow: an inbound
  message (with the two clock readings taken while it is handled) and the natural end of a
  clip. A rejected handler promise is not observed by anyone; the next event is handled in
  the state the raise left.\<close>

datatype playback_event =
  Message real nat LiveServerMessage
| Ended nat

fun playback_step :: "(string \<Rightarrow> string option) \<Rightarrow> playback \<Rightarrow> playback_event \<Rightarrow> playback" where
  "playback_step atob s (Message currentTime dateNow msg) = fst (onmessage atob currentTime dateNow s msg)"
| "playback_step atob s (Ended n) = onended n s"

fun playback_run :: "(string \<Rightarrow> string option) \<Rightarrow> playback \<Rightarrow> playback_event list \<Rightarrow> playback" where
  "playback_run atob s [] = s"
| "playback_run atob s (ev # evs) = playback_run atob (playback_step atob s ev) evs"

fun interrupts :: "playback_event \<Rightarrow> bool" where
  "interrupts (Message currentTime dateNow msg) = interrupted msg"
| "interrupts (Ended n) = False"

text \<open>Started clips as (start time, duration), and the clips started while a list of
  events is handled.\<close>

definition clip_times :: "source_node list \<Rightarrow> (real \<times> real) list" where
  "clip_times ns = map (\<lambda>n. (startAt n, buffer_duration (node_buffer n))) ns"

definition scheduled ::
  "(string \<Rightarrow> string option) \<Rightarrow> playback \<Rightarrow> playback_event list \<Rightarrow> (real \<times> real) list" where
  "scheduled atob s evs =
     clip_times (drop (length (started s)) (started (playback_run atob s evs)))"

text \<open>The duration of the clip a payload decodes to; \<open>None\<close> for a payload that is
  absent, empty or malformed.\<close>

definition clip_duration :: "(string \<Rightarrow> string option) \<Rightarrow> string option \<Rightarrow> real option" where
  "clip_duration atob a =
     (if truthy a then
        (case base64ToUint8Array atob (the a) of
           Inl e \<Rightarrow> None
         | Inr byteArr \<Rightarrow>
             (case new_Int16Array byteArr of
                Inl e \<Rightarrow> None
              | Inr dataInt16 \<Rightarrow>
                  if length dataInt16 = 0 then None
                  else Some (real (length dataInt16) / 24000)))
      else None)"

fun clip_arrivals :: "(string \<Rightarrow> string option) \<Rightarrow> playback_event list \<Rightarrow> (real \<times> real) list" where
  "clip_arrivals atob [] = []"
| "clip_arrivals atob (Message currentTime dateNow msg # evs) =
     (case clip_duration atob (audioData msg) of
        None \<Rightarrow> clip_arrivals atob evs
      | Some dur \<Rightarrow> (currentTime, dur) # clip_arrivals atob evs)"
| "clip_arrivals atob (Ended n # evs) = clip_arrivals atob evs"

text \<open>The cursor rule in the specification's words, for clips arriving as (now, duration):
  if the cursor is before now, snap it to now; schedule the clip exactly at the cursor;
  advance the cursor by the clip's duration.\<close>

fun spec_schedule :: "real \<Rightarrow> (real \<times> real) list \<Rightarrow> (real \<times> real) list" where
  "spec_schedule cursor [] = []"
| "spec_schedule cursor ((now, dur) # rest) =
     (let snapped = (if cursor < now then now else cursor)
      in (snapped, dur) # spec_schedule (snapped + dur) rest)"

fun spec_cursor :: "real \<Rightarrow> (real \<times> real) list \<Rightarrow> real" where
  "spec_cursor cursor [] = cursor"
| "spec_cursor cursor ((now, dur) # rest) =
     (let snapped = (if cursor < now then now else cursor)
      in spec_cursor (snapped + dur) rest)"

text \<open>Clips (start time, duration) that follow one another from a cursor without overlap:
  none starts before the previous one has ended.\<close>

fun back_to_back :: "real \<Rightarrow> (real \<times> real) list \<Rightarrow> bool" where
  "back_to_back cursor [] = True"
| "back_to_back cursor ((t, dur) # rest) = (cursor \<le> t \<and> back_to_back (t + dur) rest)"

text \<open>A malformed inbound audio payload: its text is no base64, or the bytes it decodes to
  are odd in number (no whole 16-bit samples) or none at all.\<close>

definition malformed :: "(string \<Rightarrow> string option) \<Rightarrow> string \<Rightarrow> bool" where
  "malformed atob a =
     (case atob a of None \<Rightarrow> True | Some b \<Rightarrow> length b mod 2 \<noteq> 0 \<or> length b = 0)"

definition initial_playback :: playback where
  "initial_playback =
     \<lparr>isAiSpeaking = False, nextStartTimeRef = 0, sourceNodesRef = [], transcriptRef = [],
      created = 0, started = [], stopped = []\<rparr>"

section \<open>Audio capture pipeline (connectToLiveAPI, onopen)\<close>

text \<open>A payload handed to \<open>session.sendRealtimeInput\<close>. \<open>payload_data\<close> holds the bytes
  whose base64 text is sent (\<open>arrayBufferToBase64\<close>, \<open>toDataURL\<close>).\<close>

record payload =
  mimeType :: string
  payload_data :: "byte list"

text \<open>The capture side of the component. \<open>isMuted\<close> is the React state. The handler
  \<open>processor.onaudioprocess\<close> is a closure made inside one call of \<open>connectToLiveAPI\<close>;
  the variable \<open>isMuted\<close> it reads is the constant of the render whose
  \<open>connectToLiveAPI\<close> was called. \<open>onaudioprocess_env\<close> is that captured value for
  the processor of the connection made on mount, \<open>None\<close> while no handler is registered. \<open>outbound\<close> lists the payloads submitted to
  the channel, oldest first.\<close>

record capture =
  isMuted :: bool
  volumeLevel :: real
  onaudioprocess_env :: "bool option"
  outbound :: "payload list"

definition initial_capture :: capture where
  "initial_capture = \<lparr>isMuted = False, volumeLevel = 0, onaudioprocess_env = None, outbound = []\<rparr>"

text \<open>The handler body, for the captured \<open>isMuted\<close> and one frame of samples.\<close>

definition onaudioprocess :: "bool \<Rightarrow> real list \<Rightarrow> capture \<Rightarrow> capture" where
  "onaudioprocess isMuted_captured inputData s =
     (if isMuted_captured then s
      else (let sum = (\<Sum>v \<leftarrow> inputData. v * v);
                pcmData = floatTo16BitPCM inputData
            in s\<lparr>volumeLevel := sqrt (sum / real (length inputData)),
                 outbound := outbound s @
                   [\<lparr>mimeType = ''audio/pcm;rate=16000'', payload_data = pcmData\<rparr>]\<rparr>))"

text \<open>\<open>onopen\<close> of the connection made by a \<open>connectToLiveAPI\<close> whose render had
  \<open>isMuted = isMuted_captured\<close>: the handler is registered.\<close>

definition onopen :: "bool \<Rightarrow> capture \<Rightarrow> capture" where
  "onopen isMuted_captured s = s\<lparr>onaudioprocess_env := Some isMuted_captured\<rparr>"

text \<open>The mount effect (dependency list \<open>[]\<close>) runs once, in the first render, and calls
  that render's \<open>connectToLiveAPI\<close>. It is followed here to the \<open>onopen\<close> of a
  connection that succeeds.\<close>

definition mount_effect :: "capture \<Rightarrow> capture" where
  "mount_effect s = onopen (isMuted s) s"

text \<open>The mute button: \<open>setIsMuted(!isMuted)\<close>. The re-render makes a new
  \<open>connectToLiveAPI\<close> (its dependencies are \<open>[topic, isMuted]\<close>) and calls nothing.\<close>

definition toggle_mute :: "capture \<Rightarrow> capture" where
  "toggle_mute s = s\<lparr>isMuted := \<not> isMuted s\<rparr>"

text \<open>The device delivers one frame to the registered handler.\<close>

definition deliver_frame :: "real list \<Rightarrow> capture \<Rightarrow> capture" where
  "deliver_frame inputData s =
     (case onaudioprocess_env s of
        None \<Rightarrow> s
      | Some isMuted_captured \<Rightarrow> onaudioprocess isMuted_captured inputData s)"

section \<open>Lifecycle and teardown (connectToLiveAPI, mount effect cleanup)\<close>

datatype context_state = Running | Closed

datatype promise_state = Pending | Fulfilled | Rejected

text \<open>The resources of one arena. \<open>sessionPromiseRef\<close> holds the state of the promise
  returned by \<open>ai.live.connect\<close>; \<open>close_callbacks\<close> counts the \<open>then(s => s.close())\<close>
  reactions registered on it and not yet run; \<open>channel_open\<close> tells whether the session
  behind a fulfilled promise is open. \<open>live_streams\<close> counts the microphone streams
  obtained from \<open>getUserMedia\<close> whose tracks have not been stopped: \<open>stream\<close> is a local
  constant of \<open>connectToLiveAPI\<close>, stored in no ref.\<close>

record resources =
  inputAudioContextRef :: "context_state option"
  audioContextRef :: "context_state option"
  sessionPromiseRef :: "promise_state option"
  close_callbacks :: nat
  channel_open :: bool
  live_streams :: nat

definition initial_resources :: resources where
  "initial_resources =
     \<lparr>inputAudioContextRef = None, audioContextRef = None, sessionPromiseRef = None,
      close_callbacks = 0, channel_open = False, live_streams = 0\<rparr>"

text \<open>How far one call of \<open>connectToLiveAPI\<close> gets: \<open>getUserMedia\<close> rejects (the
  \<open>catch\<close> sets the error state), or the stream is obtained and \<open>ai.live.connect\<close>
  returns a promise that is still pending, fulfilled with an open session, or rejected.\<close>

datatype connect_outcome = MicrophoneDenied | ChannelPending | ChannelEstablished | ChannelRefused

definition connectToLiveAPI :: "connect_outcome \<Rightarrow> resources \<Rightarrow> resources" where
  "connectToLiveAPI outcome r =
     (let r1 = r\<lparr>inputAudioContextRef := Some Running, audioContextRef := Some Running\<rparr> in
      case outcome of
        MicrophoneDenied \<Rightarrow> r1
      | ChannelPending \<Rightarrow>
          r1\<lparr>live_streams := Suc (live_streams r1), sessionPromiseRef := Some Pending,
             close_callbacks := 0, channel_open := False\<rparr>
      | ChannelEstablished \<Rightarrow>
          r1\<lparr>live_streams := Suc (live_streams r1), sessionPromiseRef := Some Fulfilled,
             close_callbacks := 0, channel_open := True\<rparr>
      | ChannelRefused \<Rightarrow>
          r1\<lparr>live_streams := Suc (live_streams r1), sessionPromiseRef := Some Rejected,
             close_callbacks := 0, channel_open := False\<rparr>)"

text \<open>What teardown does to the outside, in the order it does it.\<close>

datatype effect = SessionClose | InputContextClose | OutputContextClose

text \<open>The cleanup function of the mount effect, as far as it runs synchronously: a
  reaction is registered on the session promise, then \<open>close()\<close> is called on the two
  contexts. \<open>close()\<close> on a closed context rejects a promise nobody reads.\<close>

definition cleanup :: "resources \<Rightarrow> resources \<times> effect list" where
  "cleanup r =
     (let r1 = (if sessionPromiseRef r \<noteq> None
                then r\<lparr>close_callbacks := Suc (close_callbacks r)\<rparr> else r);
          (r2, e2) = (if inputAudioContextRef r1 \<noteq> None
                      then (r1\<lparr>inputAudioContextRef := Some Closed\<rparr>, [InputContextClose])
                      else (r1, []));
          (r3, e3) = (if audioContextRef r2 \<noteq> None
                      then (r2\<lparr>audioContextRef := Some Closed\<rparr>, [OutputContextClose])
                      else (r2, []))
      in (r3, e2 @ e3))"

text \<open>The microtasks that follow: the reactions of a fulfilled promise run, each calling
  \<open>s.close()\<close>; those of a pending promise wait; those of a rejected one are dropped.\<close>

definition run_reactions :: "resources \<Rightarrow> resources \<times> effect list" where
  "run_reactions r =
     (case sessionPromiseRef r of
        Some Fulfilled \<Rightarrow>
          (r\<lparr>close_callbacks := 0,
             channel_open := (if close_callbacks r = 0 then channel_open r else False)\<rparr>,
           replicate (close_callbacks r) SessionClose)
      | Some Rejected \<Rightarrow> (r\<lparr>close_callbacks := 0\<rparr>, [])
      | _ \<Rightarrow> (r, []))"

definition teardown :: "resources \<Rightarrow> resources \<times> effect list" where
  "teardown r =
     (let (r1, e1) = cleanup r; (r2, e2) = run_reactions r1 in (r2, e1 @ e2))"

section \<open>HomeView (handleStartInteraction)\<close>

text \<open>The fields of the response that the handler reads, each optional as in the
  SDK's types.\<close>

datatype Blob = Blob (blob_data: "string option")

datatype Part = Part (inlineData: "Blob option")

datatype Content = Content (parts: "Part list option")

datatype Candidate = Candidate (content: "Content option")

datatype GenerateContentResponse = GenerateContentResponse (candidates: "Candidate list option")

datatype generate_outcome = Throws | Returns GenerateContentResponse

text \<open>White space as \<open>String.prototype.trim\<close> sees it, among the characters below 256.\<close>

definition is_white_space :: "char \<Rightarrow> bool" where
  "is_white_space c = ((of_char c :: nat) \<in> {9, 10, 11, 12, 13, 32, 160})"

definition trim :: "string \<Rightarrow> string" where
  "trim s = rev (dropWhile is_white_space (rev (dropWhile is_white_space s)))"

text \<open>The loop over \<open>response.candidates[0].content.parts\<close>: the data URL of the first
  part with \<open>inlineData\<close>, the empty string when there is none. An undefined \<open>data\<close>
  prints as \<open>undefined\<close> in the template.\<close>

fun first_inline_image :: "Part list \<Rightarrow> string" where
  "first_inline_image [] = ''''"
| "first_inline_image (part # rest) =
     (case inlineData part of
        Some b \<Rightarrow> ''data:image/png;base64,'' @ (case blob_data b of None \<Rightarrow> ''undefined'' | Some t \<Rightarrow> t)
      | None \<Rightarrow> first_inline_image rest)"

definition extract_image :: "GenerateContentResponse \<Rightarrow> string" where
  "extract_image response =
     (case candidates response of
        None \<Rightarrow> ''''
      | Some [] \<Rightarrow> ''''
      | Some (c # cs) \<Rightarrow>
          (case content c of
             None \<Rightarrow> ''''
           | Some ct \<Rightarrow> (case parts ct of None \<Rightarrow> '''' | Some ps \<Rightarrow> first_inline_image ps)))"

text \<open>All inline images anywhere in a response.\<close>

definition inline_images :: "GenerateContentResponse \<Rightarrow> Blob list" where
  "inline_images response =
     concat (map (\<lambda>c. case content c of
                         None \<Rightarrow> []
                       | Some ct \<Rightarrow>
                           (case parts ct of
                              None \<Rightarrow> []
                            | Some ps \<Rightarrow> concat (map (\<lambda>p. case inlineData p of None \<Rightarrow> [] | Some b \<Rightarrow> [b]) ps)))
                 (case candidates response of None \<Rightarrow> [] | Some cs \<Rightarrow> cs))"

text \<open>The view's state and the calls it has made of its \<open>onStart\<close> prop, as
  (topic, infographicUrl).\<close>

record home =
  home_topic :: string
  isLoading :: bool
  onStart_calls :: "(string \<times> string) list"

text \<open>The template literal \<open>systemPrompt\<close>, line by line.\<close>

definition systemPrompt :: "string \<Rightarrow> string" where
  "systemPrompt tp =
     [CHR 0x0A] @
     ''        Generate a clean, high-quality, whiteboard-style infographic representing the concept of: '' @
     [CHR 0x22] @ tp @ [CHR 0x22] @
     ''.'' @
     [CHR 0x0A] @
     ''        '' @
     [CHR 0x0A] @
     ''        Visual Style Guidelines:'' @
     [CHR 0x0A] @
     ''        - Hand-drawn aesthetic on a clean white background.'' @
     [CHR 0x0A] @
     ''        - Use marker colors: Black, Blue, Red, and Green.'' @
     [CHR 0x0A] @
     ''        - Diagrammatic elements: arrows, mind-map nodes, simple icons, sticky notes.'' @
     [CHR 0x0A] @
     ''        - Minimalist, organized, and clear.'' @
     [CHR 0x0A] @
     ''        - No photorealism; it should look like a brilliant brainstorming session sketch.'' @
     [CHR 0x0A] @
     ''        - Center composition.'' @
     [CHR 0x0A] @
     ''        - The image should capture the essence of analyzing '' @
     [CHR 0x22] @ tp @ [CHR 0x22] @
     '' structurally.'' @
     [CHR 0x0A] @
     ''      ''"

text \<open>\<open>handleStartInteraction\<close>. The image model is a parameter: what
  \<open>ai.models.generateContent\<close> does with a prompt (constructing the client included).\<close>

definition handleStartInteraction :: "(string \<Rightarrow> generate_outcome) \<Rightarrow> home \<Rightarrow> home" where
  "handleStartInteraction generateContent s =
     (if trim (home_topic s) = [] then s
      else (let s1 = s\<lparr>isLoading := True\<rparr> in
            case generateContent (systemPrompt (home_topic s)) of
              Throws \<Rightarrow> s1\<lparr>isLoading := False\<rparr>
            | Returns response \<Rightarrow>
                (let imageUrl = extract_image response in
                 if imageUrl = [] then s1\<lparr>isLoading := False\<rparr>
                 else s1\<lparr>onStart_calls := onStart_calls s1 @ [(home_topic s, imageUrl)]\<rparr>)))"


section \<open>Properties of the PCM conversion\<close>

lemma word_cat_split16:
  "word_cat (ucast (drop_bit 8 w) :: byte) (ucast w :: byte) = (w :: int16)"
  by (rule bit_word_eqI) (auto simp add: bit_word_cat_iff bit_ucast_iff bit_drop_bit_eq)

lemma trunc_pcm_sample_range:
  "- 32768 \<le> trunc (pcm_sample f) \<and> trunc (pcm_sample f) \<le> 32767"
  unfolding trunc_def pcm_sample_def Let_def
  by (auto simp: le_floor_iff floor_le_iff ceiling_le_iff le_ceiling_iff max_def min_def)

lemma sint_ToInt16:
  "- 32768 \<le> trunc v \<Longrightarrow> trunc v \<le> 32767 \<Longrightarrow> sint (ToInt16 v) = trunc v"
  unfolding ToInt16_def by (simp add: sint_sbintrunc' signed_take_bit_int_eq_self)

lemma length_setInt16_le: "length (setInt16_le v) = 2"
  by (simp add: setInt16_le_def Let_def)

lemma length_floatTo16BitPCM: "length (floatTo16BitPCM fs) = 2 * length fs"
  by (induction fs) (simp_all add: length_setInt16_le)

lemma getInt16_le_head:
  "getInt16_le (setInt16_le v @ rest) 0 = Some (sint (ToInt16 v))"
  by (simp add: getInt16_le_def setInt16_le_def Let_def word_cat_split16)

lemma getInt16_le_skip:
  "getInt16_le (setInt16_le v @ rest) (Suc (Suc off)) = getInt16_le rest off"
  by (simp add: getInt16_le_def setInt16_le_def Let_def nth_append)

lemma getInt16_floatTo16BitPCM:
  "i < length fs \<Longrightarrow>
   getInt16_le (floatTo16BitPCM fs) (2 * i) = Some (trunc (pcm_sample (fs ! i)))"
proof (induction fs arbitrary: i)
  case Nil
  then show ?case by simp
next
  case (Cons f fs)
  show ?case
  proof (cases i)
    case 0
    then show ?thesis
      using trunc_pcm_sample_range [of f] by (simp add: getInt16_le_head sint_ToInt16)
  next
    case (Suc j)
    then have "j < length fs" using Cons.prems by simp
    then show ?thesis using Suc Cons.IH [of j] by (simp add: getInt16_le_skip)
  qed
qed

text \<open>
  C6. \<open>floatTo16BitPCM\<close> writes two bytes per sample. Read back as a signed little-endian
  16-bit integer, the bytes of sample \<open>i\<close> are the sample clamped to \<open>[-1, 1]\<close> and scaled
  by 32768 when negative and by 32767 otherwise, cut to an integer towards zero; the value
  lies in the 16-bit range, so nothing wraps. Sample 1 gives 32767, sample -1 gives -32768
  and sample 0 gives 0.
\<close>

theorem floatTo16BitPCM_clamps_and_scales:
  "length (floatTo16BitPCM fs) = 2 * length fs \<and>
   (\<forall>i. i < length fs \<longrightarrow>
      (let s = max (- 1) (min 1 (fs ! i));
           v = trunc (if s < 0 then s * 32768 else s * 32767)
       in getInt16_le (floatTo16BitPCM fs) (2 * i) = Some v \<and> - 32768 \<le> v \<and> v \<le> 32767)) \<and>
   floatTo16BitPCM [1, - 1, 0] = [0xFF, 0x7F, 0x00, 0x80, 0x00, 0x00] \<and>
   getInt16_le (floatTo16BitPCM [1, - 1, 0]) 0 = Some 32767 \<and>
   getInt16_le (floatTo16BitPCM [1, - 1, 0]) 2 = Some (- 32768) \<and>
   getInt16_le (floatTo16BitPCM [1, - 1, 0]) 4 = Some 0"
proof -
  have samples: "\<forall>i. i < length fs \<longrightarrow>
      (let s = max (- 1) (min 1 (fs ! i));
           v = trunc (if s < 0 then s * 32768 else s * 32767)
       in getInt16_le (floatTo16BitPCM fs) (2 * i) = Some v \<and> - 32768 \<le> v \<and> v \<le> 32767)"
  proof (intro allI impI)
    fix i assume i: "i < length fs"
    have "pcm_sample (fs ! i) =
        (let s = max (- 1) (min 1 (fs ! i)) in if s < 0 then s * 32768 else s * 32767)"
      by (simp add: pcm_sample_def)
    then show "let s = max (- 1) (min 1 (fs ! i));
           v = trunc (if s < 0 then s * 32768 else s * 32767)
       in getInt16_le (floatTo16BitPCM fs) (2 * i) = Some v \<and> - 32768 \<le> v \<and> v \<le> 32767"
      using getInt16_floatTo16BitPCM [OF i] trunc_pcm_sample_range [of "fs ! i"]
      by (simp add: Let_def)
  qed
  have bytes: "floatTo16BitPCM [1, - 1, 0] = [0xFF, 0x7F, 0x00, 0x80, 0x00, 0x00]"
    by (simp add: setInt16_le_def pcm_sample_def ToInt16_def trunc_def Let_def drop_bit_eq_div)
  have r0: "getInt16_le (floatTo16BitPCM [1, - 1, 0]) 0 = Some 32767"
    using getInt16_floatTo16BitPCM [of 0 "[1, - 1, 0]"]
    by (simp add: pcm_sample_def trunc_def)
  have r1: "getInt16_le (floatTo16BitPCM [1, - 1, 0]) 2 = Some (- 32768)"
    using getInt16_floatTo16BitPCM [of 1 "[1, - 1, 0]"]
    by (simp add: pcm_sample_def trunc_def)
  have r2: "getInt16_le (floatTo16BitPCM [1, - 1, 0]) 4 = Some 0"
    using getInt16_floatTo16BitPCM [of 2 "[1, - 1, 0]"]
    by (simp add: pcm_sample_def trunc_def)
  show ?thesis
    using samples bytes r0 r1 r2 length_floatTo16BitPCM [of fs] by blast
qed

theorem floatTo16BitPCM_clamps_and_scales_witness:
  "(1::nat) < length [1 / 2, - 1 / 4, 5 / 2 :: real] \<and>
   getInt16_le (floatTo16BitPCM [1 / 2, - 1 / 4, 5 / 2]) 2 = Some (- 8192) \<and>
   getInt16_le (floatTo16BitPCM [1 / 2, - 1 / 4, 5 / 2]) 0 = Some 16383 \<and>
   getInt16_le (floatTo16BitPCM [1 / 2, - 1 / 4, 5 / 2]) 4 = Some 32767"
proof -
  note t = floatTo16BitPCM_clamps_and_scales [of "[1 / 2, - 1 / 4, 5 / 2]"]
  from t have a: "\<forall>i. i < length [1 / 2, - 1 / 4, 5 / 2 :: real] \<longrightarrow>
      (let s = max (- 1) (min 1 ([1 / 2, - 1 / 4, 5 / 2 :: real] ! i));
           v = trunc (if s < 0 then s * 32768 else s * 32767)
       in getInt16_le (floatTo16BitPCM [1 / 2, - 1 / 4, 5 / 2]) (2 * i) = Some v \<and>
          - 32768 \<le> v \<and> v \<le> 32767)"
    by blast
  from a [rule_format, of 0] a [rule_format, of 1] a [rule_format, of 2]
  show ?thesis by (simp add: trunc_def Let_def)
qed

section \<open>Properties of the session result\<close>

lemma of_char_digit_char: "d < 10 \<Longrightarrow> (of_char (digit_char d) :: nat) = 48 + d"
  by (simp add: digit_char_def)

lemma is_digit_digit_char: "d < 10 \<Longrightarrow> is_digit (digit_char d)"
  by (simp add: is_digit_def of_char_digit_char)

lemma digit_char_0: "digit_char 0 = CHR ''0''"
  by code_simp

lemma toString_two_digits:
  "n < 100 \<Longrightarrow> padStart 2 (CHR ''0'') (toString n) = [digit_char (n div 10), digit_char (n mod 10)]"
proof (cases "n < 10")
  case True
  then show ?thesis
    by (simp add: toString.simps [of n] padStart_def digit_char_0)
next
  case False
  assume "n < 100"
  then have "n div 10 < 10" by simp
  then have "toString (n div 10) = [digit_char (n div 10)]"
    by (simp add: toString.simps [of "n div 10"])
  then show ?thesis using False
    by (simp add: toString.simps [of n] padStart_def)
qed

lemma length_padStart: "length (padStart n c s) = max n (length s)"
  by (simp add: padStart_def)

lemma length_formatTime: "5 \<le> length (formatTime seconds)"
  by (simp add: formatTime_def Let_def length_padStart)

text \<open>The End Session path: below one hundred minutes the duration has the shape
  \<open>MM:SS\<close>, with the digits of the elapsed minutes and seconds.\<close>

lemma formatTime_MMSS:
  assumes "seconds < 6000"
  shows "formatTime seconds =
           [digit_char (seconds div 60 div 10), digit_char (seconds div 60 mod 10), CHR '':'',
            digit_char (seconds mod 60 div 10), digit_char (seconds mod 60 mod 10)]"
    and "is_MMSS (formatTime seconds)"
proof -
  have m: "seconds div 60 < 100" using assms by simp
  have s: "seconds mod 60 < 100" by (rule less_trans [of _ 60]) simp_all
  show f: "formatTime seconds =
           [digit_char (seconds div 60 div 10), digit_char (seconds div 60 mod 10), CHR '':'',
            digit_char (seconds mod 60 div 10), digit_char (seconds mod 60 mod 10)]"
    by (simp add: formatTime_def Let_def toString_two_digits [OF m] toString_two_digits [OF s])
  have "seconds div 60 div 10 < 10" "seconds mod 60 div 10 < 10" using m by simp_all
  then show "is_MMSS (formatTime seconds)"
    by (simp add: f is_digit_digit_char)
qed

text \<open>
  C9. On the Return to Home path the duration handed to \<open>onEnd\<close> is the constant
  \<open>0:00\<close>, whatever time has elapsed. It has not the shape \<open>MM:SS\<close> and it is no output
  of \<open>formatTime\<close>; after 65 seconds the End Session path hands over \<open>01:05\<close>.
\<close>

theorem returnToHome_duration_not_MMSS:
  "duration (returnToHome_onEnd elapsedTime tp tr) = ''0:00'' \<and>
   \<not> is_MMSS (duration (returnToHome_onEnd elapsedTime tp tr)) \<and>
   duration (returnToHome_onEnd elapsedTime tp tr) \<noteq> formatTime elapsedTime \<and>
   duration (endSession_onEnd 65 tp tr) = ''01:05'' \<and>
   is_MMSS (duration (endSession_onEnd 65 tp tr))"
proof -
  have "length (duration (returnToHome_onEnd elapsedTime tp tr)) = 4"
    by (simp add: returnToHome_onEnd_def)
  then have ne: "duration (returnToHome_onEnd elapsedTime tp tr) \<noteq> formatTime elapsedTime"
    using length_formatTime [of elapsedTime] by auto
  have f: "formatTime 65 = ''01:05''"
    by code_simp
  have "is_MMSS (formatTime 65)"
    by (rule formatTime_MMSS(2)) simp
  then show ?thesis
    using ne f by (simp add: returnToHome_onEnd_def endSession_onEnd_def)
qed

section \<open>Properties of the drawing surface\<close>

lemma slice_0_minus1_butlast: "slice_0_minus1 p = butlast p"
  by (simp add: slice_0_minus1_def butlast_conv_take)

text \<open>
  C8. When there is a committed path, undo removes exactly the last one: the paths before
  undo are the paths after it followed by the removed path. With no committed path undo
  changes nothing. Notes, shapes and the stroke in progress are never touched.
\<close>

theorem undo_removes_last_path:
  "(paths s \<noteq> [] \<longrightarrow>
      paths s = paths (undo s) @ [last (paths s)] \<and>
      length (paths (undo s)) = length (paths s) - 1) \<and>
   (paths s = [] \<longrightarrow> undo s = s) \<and>
   notes_of (undo s) = notes_of s \<and>
   shapes (undo s) = shapes s \<and>
   currentPath (undo s) = currentPath s"
  by (simp add: undo_def slice_0_minus1_butlast)

theorem undo_removes_last_path_witness:
  "paths \<lparr>paths = [\<lparr>path_d = ''M 0 0 L 1 1'', path_color = ''#ef4444'', path_width = 3\<rparr>,
                    \<lparr>path_d = ''M 2 2 L 3 3'', path_color = ''#22c55e'', path_width = 3\<rparr>],
          currentPath = '''',
          notes_of = [\<lparr>note_pos = (5, 6), note_text = ''''\<rparr>],
          shapes = [\<lparr>shape_pos = (7, 8), shape_color = ''#ef4444''\<rparr>]\<rparr> \<noteq> [] \<and>
   paths (undo \<lparr>paths = [\<lparr>path_d = ''M 0 0 L 1 1'', path_color = ''#ef4444'', path_width = 3\<rparr>,
                          \<lparr>path_d = ''M 2 2 L 3 3'', path_color = ''#22c55e'', path_width = 3\<rparr>],
          currentPath = '''',
          notes_of = [\<lparr>note_pos = (5, 6), note_text = ''''\<rparr>],
          shapes = [\<lparr>shape_pos = (7, 8), shape_color = ''#ef4444''\<rparr>]\<rparr>) =
     [\<lparr>path_d = ''M 0 0 L 1 1'', path_color = ''#ef4444'', path_width = 3\<rparr>] \<and>
   undo \<lparr>paths = [], currentPath = '''',
         notes_of = [\<lparr>note_pos = (5, 6), note_text = ''''\<rparr>], shapes = []\<rparr> =
     \<lparr>paths = [], currentPath = '''',
      notes_of = [\<lparr>note_pos = (5, 6), note_text = ''''\<rparr>], shapes = []\<rparr>"
  using undo_removes_last_path
      [of "\<lparr>paths = [\<lparr>path_d = ''M 0 0 L 1 1'', path_color = ''#ef4444'', path_width = 3\<rparr>,
                    \<lparr>path_d = ''M 2 2 L 3 3'', path_color = ''#22c55e'', path_width = 3\<rparr>],
          currentPath = '''',
          notes_of = [\<lparr>note_pos = (5, 6), note_text = ''''\<rparr>],
          shapes = [\<lparr>shape_pos = (7, 8), shape_color = ''#ef4444''\<rparr>]\<rparr>"]
    undo_removes_last_path
      [of "\<lparr>paths = [], currentPath = '''',
         notes_of = [\<lparr>note_pos = (5, 6), note_text = ''''\<rparr>], shapes = []\<rparr>"]
  by simp

section \<open>Properties of the viewport transform\<close>

text \<open>The scale starts at 1 and is only written by \<open>handleWheel\<close>, which keeps it in
  \<open>[0.1, 5]\<close>: it is never 0.\<close>

lemma handleWheel_scale_range:
  "1 / 10 \<le> scale v \<Longrightarrow> scale v \<le> 5 \<Longrightarrow>
   1 / 10 \<le> scale (handleWheel e v) \<and> scale (handleWheel e v) \<le> 5"
  by (auto simp: handleWheel_def Let_def min_def max_def)

text \<open>For every offset, viewport size and non-zero scale, \<open>screenToWorld\<close> undoes the
  rendering transform \<open>p \<mapsto> p * scale + viewportCenter + offset\<close>, wherever the container
  lies on the screen.\<close>

lemma screenToWorld_transform_inverse:
  assumes "scale v \<noteq> 0"
  shows "screenToWorld v None (fst (transform v p)) (snd (transform v p)) = p"
    and "screenToWorld v (Some rect) (fst rect + fst (transform v p))
           (snd rect + snd (transform v p)) = p"
    and "transform v p =
           (fst p * scale v + fst (viewportSize v) / 2 + fst (offset v),
            snd p * scale v + snd (viewportSize v) / 2 + snd (offset v))"
proof -
  show "screenToWorld v None (fst (transform v p)) (snd (transform v p)) = p"
    using assms by (cases p) (simp add: screenToWorld_def transform_def Let_def)
  show "screenToWorld v (Some rect) (fst rect + fst (transform v p))
           (snd rect + snd (transform v p)) = p"
    using assms by (cases p) (simp add: screenToWorld_def transform_def Let_def)
  show "transform v p =
           (fst p * scale v + fst (viewportSize v) / 2 + fst (offset v),
            snd p * scale v + snd (viewportSize v) / 2 + snd (offset v))"
    by (simp add: transform_def Let_def)
qed

text \<open>The viewport size is written by nothing after the mount effect, and the mount effect
  finds no container.\<close>

lemma viewport_step_keeps_size: "viewportSize (viewport_step v ev) = viewportSize v"
  by (cases ev) (simp_all add: handleWheel_def pan_def Let_def)

lemma viewport_run_keeps_size: "viewportSize (foldl viewport_step v evs) = viewportSize v"
  by (induction evs arbitrary: v) (simp_all add: viewport_step_keeps_size)

lemma mount_viewport_eq: "mount_viewport clientSize = initial_viewport"
  by (simp add: mount_viewport_def containerRef_current_def set_viewport_effect_def)

text \<open>
  C7. In an arena whose canvas container is 800 by 600 at the origin of the screen, the
  viewport size is \<open>(0, 0)\<close> after mount and after any wheel and drag gestures. With scale 1
  and offset \<open>(0, 0)\<close> a click at screen \<open>(400, 300)\<close> is world \<open>(400, 300)\<close>, not
  \<open>(0, 0)\<close>, and world \<open>(0, 0)\<close> is rendered at the container's corner \<open>(0, 0)\<close>.
\<close>

theorem screen_centre_is_not_world_origin:
  "viewportSize (foldl viewport_step (mount_viewport (800, 600)) evs) = (0, 0) \<and>
   scale (mount_viewport (800, 600)) = 1 \<and>
   offset (mount_viewport (800, 600)) = (0, 0) \<and>
   screenToWorld (mount_viewport (800, 600)) (Some (0, 0)) 400 300 = (400, 300) \<and>
   transform (mount_viewport (800, 600)) (0, 0) = (0, 0)"
  by (simp add: viewport_run_keeps_size mount_viewport_eq initial_viewport_def
      screenToWorld_def transform_def Let_def)

section \<open>Properties of the capture pipeline\<close>

text \<open>A handler whose captured flag is set drops the frame: no payload, no buffering, no
  telemetry.\<close>

lemma onaudioprocess_muted: "onaudioprocess True inputData s = s"
  by (simp add: onaudioprocess_def)

lemma onaudioprocess_unmuted:
  "outbound (onaudioprocess False inputData s) =
     outbound s @ [\<lparr>mimeType = ''audio/pcm;rate=16000'', payload_data = floatTo16BitPCM inputData\<rparr>]"
  by (simp add: onaudioprocess_def Let_def)

text \<open>The mute button does not reach the registered handler.\<close>

lemma toggle_mute_keeps_handler: "onaudioprocess_env (toggle_mute s) = onaudioprocess_env s"
  by (simp add: toggle_mute_def)

text \<open>
  C1. The session is mounted unmuted and connects; the user then mutes. The mute flag is
  set, and the next microphone frame is still encoded and submitted to the channel: the
  registered handler reads the \<open>isMuted\<close> of the first render.
\<close>

theorem muted_frame_still_sent:
  "isMuted (toggle_mute (mount_effect initial_capture)) \<and>
   outbound (toggle_mute (mount_effect initial_capture)) = [] \<and>
   outbound (deliver_frame [1 / 2, - 1 / 4] (toggle_mute (mount_effect initial_capture))) =
     [\<lparr>mimeType = ''audio/pcm;rate=16000'', payload_data = [0xFF, 0x3F, 0x00, 0xE0]\<rparr>]"
proof -
  have env: "onaudioprocess_env (toggle_mute (mount_effect initial_capture)) = Some False"
    by (simp add: toggle_mute_def mount_effect_def onopen_def initial_capture_def)
  have pcm: "floatTo16BitPCM [1 / 2, - 1 / 4] = [0xFF, 0x3F, 0x00, 0xE0]"
    by (simp add: setInt16_le_def pcm_sample_def ToInt16_def trunc_def Let_def drop_bit_eq_div)
  have out: "outbound (toggle_mute (mount_effect initial_capture)) = []"
    by (simp add: toggle_mute_def mount_effect_def onopen_def initial_capture_def)
  have sent: "outbound (deliver_frame [1 / 2, - 1 / 4] (toggle_mute (mount_effect initial_capture))) =
     [\<lparr>mimeType = ''audio/pcm;rate=16000'', payload_data = [0xFF, 0x3F, 0x00, 0xE0]\<rparr>]"
    by (simp only: deliver_frame_def env option.case onaudioprocess_unmuted out pcm append_Nil)
  have muted: "isMuted (toggle_mute (mount_effect initial_capture))"
    by (simp add: toggle_mute_def mount_effect_def onopen_def initial_capture_def)
  show ?thesis
    by (intro conjI) (fact muted, fact out, fact sent)
qed


section \<open>Properties of teardown\<close>

lemma cleanup_fields:
  "inputAudioContextRef (fst (cleanup r)) = map_option (\<lambda>c. Closed) (inputAudioContextRef r)"
  "audioContextRef (fst (cleanup r)) = map_option (\<lambda>c. Closed) (audioContextRef r)"
  "sessionPromiseRef (fst (cleanup r)) = sessionPromiseRef r"
  "channel_open (fst (cleanup r)) = channel_open r"
  "live_streams (fst (cleanup r)) = live_streams r"
  "close_callbacks (fst (cleanup r)) =
     (if sessionPromiseRef r \<noteq> None then Suc (close_callbacks r) else close_callbacks r)"
  "snd (cleanup r) =
     (if inputAudioContextRef r \<noteq> None then [InputContextClose] else []) @
     (if audioContextRef r \<noteq> None then [OutputContextClose] else [])"
  by (auto simp: cleanup_def Let_def split: if_splits)

lemma run_reactions_fields:
  "inputAudioContextRef (fst (run_reactions r)) = inputAudioContextRef r"
  "audioContextRef (fst (run_reactions r)) = audioContextRef r"
  "sessionPromiseRef (fst (run_reactions r)) = sessionPromiseRef r"
  "live_streams (fst (run_reactions r)) = live_streams r"
  "channel_open (fst (run_reactions r)) =
     (if sessionPromiseRef r = Some Fulfilled \<and> close_callbacks r \<noteq> 0 then False
      else channel_open r)"
  "snd (run_reactions r) =
     (if sessionPromiseRef r = Some Fulfilled then replicate (close_callbacks r) SessionClose
      else [])"
  by (auto simp: run_reactions_def split: option.splits promise_state.splits)

lemma teardown_unfold:
  "fst (teardown r) = fst (run_reactions (fst (cleanup r)))"
  "snd (teardown r) = snd (cleanup r) @ snd (run_reactions (fst (cleanup r)))"
  by (simp_all add: teardown_def split_beta Let_def)

text \<open>
  C4, as the code has it. Teardown closes the input (capture) audio context, then the
  output audio context, and only after both, as a reaction on the session promise, the
  remote channel, if its establishment completed. The contexts are closed whether or not
  the channel was ever established. No microphone stream is released. A second run leaves
  contexts, promise, channel and streams as the first run left them.
\<close>

theorem teardown_closes_contexts_then_channel:
  "snd (teardown r) =
     (if inputAudioContextRef r \<noteq> None then [InputContextClose] else []) @
     (if audioContextRef r \<noteq> None then [OutputContextClose] else []) @
     (if sessionPromiseRef r = Some Fulfilled
      then replicate (Suc (close_callbacks r)) SessionClose else []) \<and>
   inputAudioContextRef (fst (teardown r)) = map_option (\<lambda>c. Closed) (inputAudioContextRef r) \<and>
   audioContextRef (fst (teardown r)) = map_option (\<lambda>c. Closed) (audioContextRef r) \<and>
   (sessionPromiseRef r = Some Fulfilled \<longrightarrow> \<not> channel_open (fst (teardown r))) \<and>
   live_streams (fst (teardown r)) = live_streams r \<and>
   inputAudioContextRef (fst (teardown (fst (teardown r)))) = inputAudioContextRef (fst (teardown r)) \<and>
   audioContextRef (fst (teardown (fst (teardown r)))) = audioContextRef (fst (teardown r)) \<and>
   sessionPromiseRef (fst (teardown (fst (teardown r)))) = sessionPromiseRef (fst (teardown r)) \<and>
   channel_open (fst (teardown (fst (teardown r)))) = channel_open (fst (teardown r)) \<and>
   live_streams (fst (teardown (fst (teardown r)))) = live_streams (fst (teardown r))"
  by (cases "inputAudioContextRef r"; cases "audioContextRef r"; cases "sessionPromiseRef r")
    (simp_all add: teardown_unfold cleanup_fields run_reactions_fields)

theorem teardown_closes_contexts_then_channel_witness:
  "sessionPromiseRef (connectToLiveAPI ChannelEstablished initial_resources) = Some Fulfilled \<and>
   channel_open (connectToLiveAPI ChannelEstablished initial_resources) \<and>
   \<not> channel_open (fst (teardown (connectToLiveAPI ChannelEstablished initial_resources))) \<and>
   snd (teardown (connectToLiveAPI ChannelEstablished initial_resources)) =
     [InputContextClose, OutputContextClose, SessionClose] \<and>
   snd (teardown (connectToLiveAPI MicrophoneDenied initial_resources)) =
     [InputContextClose, OutputContextClose]"
  using teardown_closes_contexts_then_channel
      [of "connectToLiveAPI ChannelEstablished initial_resources"]
    teardown_closes_contexts_then_channel
      [of "connectToLiveAPI MicrophoneDenied initial_resources"]
  by (simp add: connectToLiveAPI_def initial_resources_def Let_def)

text \<open>
  C4, as the claim has it, fails where the session is fully connected: after teardown the
  microphone stream is still live, and the channel is closed last, after both contexts.
\<close>

theorem teardown_leaves_microphone_live:
  "teardown (connectToLiveAPI ChannelEstablished initial_resources) =
     (\<lparr>inputAudioContextRef = Some Closed, audioContextRef = Some Closed,
       sessionPromiseRef = Some Fulfilled, close_callbacks = 0, channel_open = False,
       live_streams = 1\<rparr>,
      [InputContextClose, OutputContextClose, SessionClose])"
  by (simp add: teardown_def cleanup_def run_reactions_def connectToLiveAPI_def
      initial_resources_def Let_def)

section \<open>Properties of HomeView\<close>

lemma first_inline_image_none:
  "\<forall>p \<in> set ps. inlineData p = None \<Longrightarrow> first_inline_image ps = []"
  by (induction ps) simp_all

lemma no_inline_parts:
  "concat (map (\<lambda>p. case inlineData p of None \<Rightarrow> [] | Some b \<Rightarrow> [b]) ps) = [] \<Longrightarrow>
   \<forall>p \<in> set ps. inlineData p = None"
proof (induction ps)
  case Nil
  show ?case by simp
next
  case (Cons a ps)
  then show ?case by (cases "inlineData a") simp_all
qed

lemma extract_image_none: "inline_images response = [] \<Longrightarrow> extract_image response = []"
proof -
  assume a: "inline_images response = []"
  show ?thesis
  proof (cases "candidates response")
    case None
    then show ?thesis by (simp add: extract_image_def)
  next
    case (Some cs)
    show ?thesis
    proof (cases cs)
      case Nil
      then show ?thesis using Some by (simp add: extract_image_def)
    next
      case (Cons c rest)
      show ?thesis
      proof (cases "content c")
        case None
        then show ?thesis using Some Cons by (simp add: extract_image_def)
      next
        case ct: (Some ct)
        show ?thesis
        proof (cases "parts ct")
          case None
          then show ?thesis using Some Cons ct by (simp add: extract_image_def)
        next
          case ps: (Some ps)
          have "concat (map (\<lambda>p. case inlineData p of None \<Rightarrow> [] | Some b \<Rightarrow> [b]) ps) = []"
            using a Some Cons ct ps by (simp add: inline_images_def)
          then have "first_inline_image ps = []"
            by (intro first_inline_image_none no_inline_parts)
          then show ?thesis using Some Cons ct ps by (simp add: extract_image_def)
        qed
      qed
    qed
  qed
qed

lemma handleStartInteraction_blank:
  "trim (home_topic s) = [] \<Longrightarrow> handleStartInteraction g s = s"
  by (simp add: handleStartInteraction_def)

lemma handleStartInteraction_throws:
  "trim (home_topic s) \<noteq> [] \<Longrightarrow> g (systemPrompt (home_topic s)) = Throws \<Longrightarrow>
   handleStartInteraction g s = s\<lparr>isLoading := False\<rparr>"
  by (simp add: handleStartInteraction_def)

lemma handleStartInteraction_no_image:
  "trim (home_topic s) \<noteq> [] \<Longrightarrow> g (systemPrompt (home_topic s)) = Returns response \<Longrightarrow>
   extract_image response = [] \<Longrightarrow>
   handleStartInteraction g s = s\<lparr>isLoading := False\<rparr>"
  by (simp add: handleStartInteraction_def)

lemma handleStartInteraction_image:
  "trim (home_topic s) \<noteq> [] \<Longrightarrow> g (systemPrompt (home_topic s)) = Returns response \<Longrightarrow>
   extract_image response \<noteq> [] \<Longrightarrow>
   handleStartInteraction g s =
     s\<lparr>isLoading := True,
       onStart_calls := onStart_calls s @ [(home_topic s, extract_image response)]\<rparr>"
  by (simp add: handleStartInteraction_def)

text \<open>
  C10. If \<open>handleStartInteraction\<close> calls \<open>onStart\<close>, then the trimmed topic is not empty
  and the generation returned a response from which a non-empty image data URL was
  extracted; it is that one call, with the topic and that URL. If, from the input state,
  the generation throws or returns a response with no inline image at all, \<open>onStart\<close> is
  not called, loading is cleared and the topic is what it was.
\<close>

theorem handleStartInteraction_onStart_only_with_image:
  "(onStart_calls (handleStartInteraction g s) \<noteq> onStart_calls s \<longrightarrow>
      trim (home_topic s) \<noteq> [] \<and>
      (\<exists>response. g (systemPrompt (home_topic s)) = Returns response \<and>
         extract_image response \<noteq> [] \<and>
         onStart_calls (handleStartInteraction g s) =
           onStart_calls s @ [(home_topic s, extract_image response)])) \<and>
   (\<not> isLoading s \<and>
    (g (systemPrompt (home_topic s)) = Throws \<or>
     (\<exists>response. g (systemPrompt (home_topic s)) = Returns response \<and>
        inline_images response = [])) \<longrightarrow>
      onStart_calls (handleStartInteraction g s) = onStart_calls s \<and>
      \<not> isLoading (handleStartInteraction g s) \<and>
      home_topic (handleStartInteraction g s) = home_topic s)"
proof (rule conjI; rule impI)
  assume called: "onStart_calls (handleStartInteraction g s) \<noteq> onStart_calls s"
  have t: "trim (home_topic s) \<noteq> []"
  proof
    assume "trim (home_topic s) = []"
    then have "handleStartInteraction g s = s" by (rule handleStartInteraction_blank)
    then have "onStart_calls (handleStartInteraction g s) = onStart_calls s" by (rule arg_cong)
    with called show False by (rule notE)
  qed
  have "\<exists>response. g (systemPrompt (home_topic s)) = Returns response \<and>
         extract_image response \<noteq> [] \<and>
         onStart_calls (handleStartInteraction g s) =
           onStart_calls s @ [(home_topic s, extract_image response)]"
  proof (cases "g (systemPrompt (home_topic s))")
    case Throws
    have "handleStartInteraction g s = s\<lparr>isLoading := False\<rparr>"
      using t Throws by (rule handleStartInteraction_throws [of s g])
    then have "onStart_calls (handleStartInteraction g s) = onStart_calls s"
      by simp
    with called show ?thesis by (rule notE)
  next
    case (Returns response)
    show ?thesis
    proof (cases "extract_image response = []")
      case True
      have "handleStartInteraction g s = s\<lparr>isLoading := False\<rparr>"
        using t Returns True by (rule handleStartInteraction_no_image [of s g response])
      then have "onStart_calls (handleStartInteraction g s) = onStart_calls s"
        by simp
      with called show ?thesis by (rule notE)
    next
      case False
      have "handleStartInteraction g s =
          s\<lparr>isLoading := True,
            onStart_calls := onStart_calls s @ [(home_topic s, extract_image response)]\<rparr>"
        using t Returns False by (rule handleStartInteraction_image [of s g response])
      then have "onStart_calls (handleStartInteraction g s) =
          onStart_calls s @ [(home_topic s, extract_image response)]"
        by simp
      with Returns False show ?thesis by (intro exI conjI)
    qed
  qed
  with t show "trim (home_topic s) \<noteq> [] \<and>
      (\<exists>response. g (systemPrompt (home_topic s)) = Returns response \<and>
         extract_image response \<noteq> [] \<and>
         onStart_calls (handleStartInteraction g s) =
           onStart_calls s @ [(home_topic s, extract_image response)])"
    by (rule conjI)
next
  assume "\<not> isLoading s \<and>
    (g (systemPrompt (home_topic s)) = Throws \<or>
     (\<exists>response. g (systemPrompt (home_topic s)) = Returns response \<and>
        inline_images response = []))"
  then have idle: "\<not> isLoading s"
    and fails: "g (systemPrompt (home_topic s)) = Throws \<or>
     (\<exists>response. g (systemPrompt (home_topic s)) = Returns response \<and>
        inline_images response = [])"
    by (rule conjunct1, rule conjunct2)
  have eq: "handleStartInteraction g s = s \<or> handleStartInteraction g s = s\<lparr>isLoading := False\<rparr>"
  proof (cases "trim (home_topic s) = []")
    case True
    then have "handleStartInteraction g s = s" by (rule handleStartInteraction_blank)
    then show ?thesis by (rule disjI1)
  next
    case False
    from fails have "handleStartInteraction g s = s\<lparr>isLoading := False\<rparr>"
    proof
      assume "g (systemPrompt (home_topic s)) = Throws"
      with False show ?thesis by (rule handleStartInteraction_throws [of s g])
    next
      assume "\<exists>response. g (systemPrompt (home_topic s)) = Returns response \<and>
        inline_images response = []"
      then obtain response where r: "g (systemPrompt (home_topic s)) = Returns response"
        and n: "inline_images response = []" by (elim exE conjE)
      from n have "extract_image response = []" by (rule extract_image_none)
      with False r show ?thesis by (rule handleStartInteraction_no_image [of s g response])
    qed
    then show ?thesis by (rule disjI2)
  qed
  from eq show "onStart_calls (handleStartInteraction g s) = onStart_calls s \<and>
      \<not> isLoading (handleStartInteraction g s) \<and>
      home_topic (handleStartInteraction g s) = home_topic s"
  proof
    assume "handleStartInteraction g s = s"
    then show ?thesis using idle by simp
  next
    assume "handleStartInteraction g s = s\<lparr>isLoading := False\<rparr>"
    then show ?thesis by simp
  qed
qed

theorem handleStartInteraction_onStart_only_with_image_witness:
  "onStart_calls
     (handleStartInteraction
        (\<lambda>prompt. Returns (GenerateContentResponse (Some [Candidate (Some (Content (Some
           [Part None, Part (Some (Blob (Some ''QUJD'')))])))])))
        \<lparr>home_topic = '' space travel '', isLoading = False, onStart_calls = []\<rparr>) \<noteq>
   onStart_calls \<lparr>home_topic = '' space travel '', isLoading = False, onStart_calls = []\<rparr> \<and>
   trim (home_topic \<lparr>home_topic = '' space travel '', isLoading = False, onStart_calls = []\<rparr>) \<noteq> [] \<and>
   onStart_calls
     (handleStartInteraction
        (\<lambda>prompt. Returns (GenerateContentResponse (Some [Candidate (Some (Content (Some
           [Part None, Part (Some (Blob (Some ''QUJD'')))])))])))
        \<lparr>home_topic = '' space travel '', isLoading = False, onStart_calls = []\<rparr>) =
     [('' space travel '', ''data:image/png;base64,QUJD'')] \<and>
   \<not> isLoading \<lparr>home_topic = '' space travel '', isLoading = False, onStart_calls = []\<rparr> \<and>
   onStart_calls
     (handleStartInteraction (\<lambda>prompt. Throws)
        \<lparr>home_topic = '' space travel '', isLoading = False, onStart_calls = []\<rparr>) = [] \<and>
   \<not> isLoading
     (handleStartInteraction (\<lambda>prompt. Throws)
        \<lparr>home_topic = '' space travel '', isLoading = False, onStart_calls = []\<rparr>) \<and>
   home_topic
     (handleStartInteraction (\<lambda>prompt. Throws)
        \<lparr>home_topic = '' space travel '', isLoading = False, onStart_calls = []\<rparr>) =
     '' space travel ''"
proof -
  let ?s = "\<lparr>home_topic = '' space travel '', isLoading = False, onStart_calls = []\<rparr>"
  let ?g = "\<lambda>prompt :: string. Returns (GenerateContentResponse (Some [Candidate (Some (Content (Some
           [Part None, Part (Some (Blob (Some ''QUJD'')))])))]))"
  let ?t = "\<lambda>prompt :: string. Throws"
  have tr: "trim '' space travel '' = ''space travel''"
    by code_simp
  have url: "extract_image (GenerateContentResponse (Some [Candidate (Some (Content (Some
           [Part None, Part (Some (Blob (Some ''QUJD'')))])))])) = ''data:image/png;base64,QUJD''"
    by (simp add: extract_image_def)
  have calls: "onStart_calls (handleStartInteraction ?g ?s) =
      [('' space travel '', ''data:image/png;base64,QUJD'')]"
    by (simp add: handleStartInteraction_def tr url)
  then have called: "onStart_calls (handleStartInteraction ?g ?s) \<noteq> onStart_calls ?s"
    by simp
  note first = handleStartInteraction_onStart_only_with_image
      [of ?g ?s, THEN conjunct1, rule_format, OF called]
  have pre: "\<not> isLoading ?s \<and>
     (?t (systemPrompt (home_topic ?s)) = Throws \<or>
      (\<exists>response. ?t (systemPrompt (home_topic ?s)) = Returns response \<and>
         inline_images response = []))"
    by simp
  note second = handleStartInteraction_onStart_only_with_image
      [of ?t ?s, THEN conjunct2, rule_format, OF pre]
  show ?thesis
    using called first [THEN conjunct1] calls second by simp
qed

section \<open>Properties of the playback scheduler\<close>

lemma length_int16_elements: "length (int16_elements buf) = length buf div 2"
  by (induction buf rule: int16_elements.induct) simp_all

lemma clip_duration_Some_iff:
  "clip_duration atob (Some a) = Some dur \<longleftrightarrow>
     a \<noteq> [] \<and> (\<exists>b. atob a = Some b \<and> length b mod 2 = 0 \<and> length b \<noteq> 0 \<and>
        dur = real (length b div 2) / 24000)"
  by (cases "atob a")
    (auto simp: clip_duration_def truthy_def base64ToUint8Array_def new_Int16Array_def
      length_int16_elements)

lemma clip_duration_None_iff:
  "a \<noteq> [] \<Longrightarrow> clip_duration atob (Some a) = None \<longleftrightarrow> malformed atob a"
  by (cases "atob a")
    (auto simp: clip_duration_def truthy_def base64ToUint8Array_def new_Int16Array_def
      length_int16_elements malformed_def)

lemma clip_duration_truthy: "clip_duration atob a = Some dur \<Longrightarrow> truthy a"
  by (cases "truthy a") (simp_all add: clip_duration_def)

lemma clip_duration_SomeE:
  assumes "clip_duration atob (Some a) = Some dur"
  obtains b where "a \<noteq> []" "atob a = Some b" "length b mod 2 = 0" "length b \<noteq> 0"
    "dur = real (length b div 2) / 24000"
proof -
  from assms have 1: "a \<noteq> []"
    and 2: "\<exists>b. atob a = Some b \<and> length b mod 2 = 0 \<and> length b \<noteq> 0 \<and>
        dur = real (length b div 2) / 24000"
    unfolding clip_duration_Some_iff by (rule conjunct1, rule conjunct2)
  from 2 show thesis
  proof (elim exE conjE)
    fix b
    assume "atob a = Some b" "length b mod 2 = 0" "length b \<noteq> 0"
      "dur = real (length b div 2) / 24000"
    with 1 show thesis by (rule that)
  qed
qed

lemma clip_duration_pos: "clip_duration atob a = Some dur \<Longrightarrow> 0 < dur"
proof -
  assume d: "clip_duration atob a = Some dur"
  then have "truthy a" by (rule clip_duration_truthy)
  then obtain t where a: "a = Some t" by (cases a) (simp_all add: truthy_def)
  from d [unfolded a] obtain b :: string where b: "length b mod 2 = 0" "length b \<noteq> 0"
    "dur = real (length b div 2) / 24000"
    by (rule clip_duration_SomeE)
  from b(1,2) have "0 < length b div 2" by (cases "length b") auto
  then show ?thesis using b(3) by simp
qed

text \<open>The audio branch, by what the payload decodes to.\<close>

lemma handle_audio_malformed:
  assumes "malformed atob a"
  shows "\<exists>e. handle_audio atob currentTime a s = (s\<lparr>isAiSpeaking := True\<rparr>, Some e)"
proof (cases "atob a")
  case None
  then show ?thesis
    by (simp add: handle_audio_def base64ToUint8Array_def)
next
  case (Some b)
  then have "length b mod 2 \<noteq> 0 \<or> length b = 0"
    using assms by (simp add: malformed_def)
  then show ?thesis
    using Some
    by (auto simp: handle_audio_def base64ToUint8Array_def new_Int16Array_def createBuffer_def)
qed

lemma handle_audio_clip:
  assumes "clip_duration atob (Some a) = Some dur"
  shows "\<exists>node.
      handle_audio atob currentTime a s =
        (s\<lparr>isAiSpeaking := True,
           nextStartTimeRef := max (nextStartTimeRef s) currentTime + dur,
           sourceNodesRef := sourceNodesRef s @ [node],
           created := Suc (created s),
           started := started s @ [node]\<rparr>, None) \<and>
      node_id node = created s \<and>
      startAt node = max (nextStartTimeRef s) currentTime \<and>
      buffer_duration (node_buffer node) = dur"
proof -
  from assms obtain b where b: "atob a = Some b" "length b mod 2 = 0" "length b \<noteq> 0"
    "dur = real (length b div 2) / 24000"
    by (rule clip_duration_SomeE)
  have pos: "length b div 2 \<noteq> 0" using b(2,3) by (cases "length b") auto
  then have "length (int16_elements (map of_char b :: byte list)) \<noteq> 0"
    by (simp add: length_int16_elements)
  then have ne: "int16_elements (map of_char b :: byte list) \<noteq> []"
    by simp
  define node where "node =
     \<lparr>node_id = created s,
      node_buffer = \<lparr>channelData = map (\<lambda>v. real_of_int v / 32768)
                       (int16_elements (map of_char b :: byte list)),
                     sampleRate = 24000\<rparr>,
      startAt = max (nextStartTimeRef s) currentTime\<rparr>"
  have d: "buffer_duration (node_buffer node) = dur"
    by (simp add: node_def buffer_duration_def length_int16_elements b(4))
  have run: "handle_audio atob currentTime a s =
        (s\<lparr>isAiSpeaking := True,
           nextStartTimeRef := max (nextStartTimeRef s) currentTime + dur,
           sourceNodesRef := sourceNodesRef s @ [node],
           created := Suc (created s),
           started := started s @ [node]\<rparr>, None)"
    unfolding d [symmetric]
    by (simp add: handle_audio_def base64ToUint8Array_def new_Int16Array_def createBuffer_def
        Let_def max_def b(1,2) ne node_def)
  have "node_id node = created s" "startAt node = max (nextStartTimeRef s) currentTime"
    by (simp_all add: node_def)
  with run d show ?thesis by (intro exI [of _ node] conjI)
qed

text \<open>One message, by what its audio payload decodes to.\<close>

lemma onmessage_malformed:
  assumes "audioData msg = Some a" "a \<noteq> []" "malformed atob a"
  shows "\<exists>e. onmessage atob currentTime dateNow s msg = (s\<lparr>isAiSpeaking := True\<rparr>, Some e)"
proof -
  from handle_audio_malformed [OF assms(3), of currentTime s]
  obtain e where "handle_audio atob currentTime a s = (s\<lparr>isAiSpeaking := True\<rparr>, Some e)"
    by blast
  then have "onmessage atob currentTime dateNow s msg = (s\<lparr>isAiSpeaking := True\<rparr>, Some e)"
    using assms(1,2) by (simp add: onmessage_def truthy_def)
  then show ?thesis by (rule exI)
qed

lemma onmessage_clip:
  assumes "clip_duration atob (audioData msg) = Some dur" "\<not> interrupted msg"
  shows "snd (onmessage atob currentTime dateNow s msg) = None \<and>
         nextStartTimeRef (fst (onmessage atob currentTime dateNow s msg)) =
           max (nextStartTimeRef s) currentTime + dur \<and>
         clip_times (started (fst (onmessage atob currentTime dateNow s msg))) =
           clip_times (started s) @ [(max (nextStartTimeRef s) currentTime, dur)]"
proof -
  from assms(1) have tr: "truthy (audioData msg)" by (rule clip_duration_truthy)
  then obtain a where a: "audioData msg = Some a" by (cases "audioData msg") (simp_all add: truthy_def)
  from handle_audio_clip [OF assms(1) [unfolded a], of currentTime s]
  obtain node where h: "handle_audio atob currentTime a s =
        (s\<lparr>isAiSpeaking := True,
           nextStartTimeRef := max (nextStartTimeRef s) currentTime + dur,
           sourceNodesRef := sourceNodesRef s @ [node],
           created := Suc (created s),
           started := started s @ [node]\<rparr>, None)"
    and n: "startAt node = max (nextStartTimeRef s) currentTime"
      "buffer_duration (node_buffer node) = dur"
    by blast
  show ?thesis
    using tr assms(2) n by (simp add: onmessage_def a h clip_times_def Let_def)
qed

lemma onmessage_no_clip:
  assumes "clip_duration atob (audioData msg) = None" "\<not> interrupted msg"
  shows "nextStartTimeRef (fst (onmessage atob currentTime dateNow s msg)) = nextStartTimeRef s \<and>
         started (fst (onmessage atob currentTime dateNow s msg)) = started s"
proof (cases "truthy (audioData msg)")
  case False
  then show ?thesis using assms(2) by (simp add: onmessage_def Let_def)
next
  case True
  then obtain a where a: "audioData msg = Some a" "a \<noteq> []"
    by (cases "audioData msg") (simp_all add: truthy_def)
  have "malformed atob a"
    using assms(1) a clip_duration_None_iff [of a atob] by simp
  from onmessage_malformed [OF a this, of currentTime dateNow s]
  obtain e where "onmessage atob currentTime dateNow s msg = (s\<lparr>isAiSpeaking := True\<rparr>, Some e)"
    by blast
  then show ?thesis by simp
qed

lemma onended_keeps_schedule:
  "nextStartTimeRef (onended n s) = nextStartTimeRef s \<and> started (onended n s) = started s"
  by (simp add: onended_def Let_def)

text \<open>A run without interruption follows the specification's cursor rule.\<close>

lemma playback_run_schedule:
  "list_all (\<lambda>ev. \<not> interrupts ev) evs \<Longrightarrow>
   clip_times (started (playback_run atob s evs)) =
     clip_times (started s) @ spec_schedule (nextStartTimeRef s) (clip_arrivals atob evs) \<and>
   nextStartTimeRef (playback_run atob s evs) =
     spec_cursor (nextStartTimeRef s) (clip_arrivals atob evs)"
proof (induction evs arbitrary: s)
  case Nil
  show ?case by simp
next
  case (Cons ev evs)
  then have rest: "list_all (\<lambda>ev. \<not> interrupts ev) evs" and here: "\<not> interrupts ev"
    by simp_all
  note IH = Cons.IH [OF rest]
  show ?case
  proof (cases ev)
    case (Ended n)
    then show ?thesis
      using IH [of "onended n s"] onended_keeps_schedule [of n s] by simp
  next
    case (Message currentTime dateNow msg)
    then have ni: "\<not> interrupted msg" using here by simp
    show ?thesis
    proof (cases "clip_duration atob (audioData msg)")
      case None
      then show ?thesis
        using Message IH [of "fst (onmessage atob currentTime dateNow s msg)"]
          onmessage_no_clip [OF None ni, of currentTime dateNow s]
        by simp
    next
      case (Some dur)
      have m: "(if nextStartTimeRef s < currentTime then currentTime else nextStartTimeRef s) =
          max (nextStartTimeRef s) currentTime"
        by (simp add: max_def)
      show ?thesis
        using Message Some IH [of "fst (onmessage atob currentTime dateNow s msg)"]
          onmessage_clip [OF Some ni, of currentTime dateNow s]
        by (simp add: m Let_def)
    qed
  qed
qed

lemma clip_arrivals_pos: "(now, dur) \<in> set (clip_arrivals atob evs) \<Longrightarrow> 0 < dur"
proof (induction evs)
  case Nil
  then show ?case by simp
next
  case (Cons ev evs)
  show ?case
  proof (cases ev)
    case (Ended n)
    then show ?thesis using Cons by simp
  next
    case (Message currentTime dateNow msg)
    show ?thesis
    proof (cases "clip_duration atob (audioData msg)")
      case None
      then show ?thesis using Cons Message by simp
    next
      case (Some d)
      then have "0 < d" by (rule clip_duration_pos)
      then show ?thesis using Cons Message Some by auto
    qed
  qed
qed

lemma spec_cursor_mono:
  "(\<And>now dur. (now, dur) \<in> set arrivals \<Longrightarrow> 0 < dur) \<Longrightarrow> cursor \<le> spec_cursor cursor arrivals"
proof (induction arrivals arbitrary: cursor)
  case Nil
  show ?case by simp
next
  case (Cons x arrivals)
  obtain now dur where x: "x = (now, dur)" by (cases x)
  have d: "0 < dur" using Cons.prems [of now dur] x by simp
  have "(if cursor < now then now else cursor) + dur \<le>
      spec_cursor ((if cursor < now then now else cursor) + dur) arrivals"
  proof (rule Cons.IH)
    fix n e
    assume "(n, e) \<in> set arrivals"
    then have "(n, e) \<in> set (x # arrivals)" by simp
    then show "0 < e" by (rule Cons.prems)
  qed
  then show ?case using d x by (simp add: Let_def split: if_splits)
qed

lemma back_to_back_spec_schedule: "back_to_back cursor (spec_schedule cursor arrivals)"
proof (induction arrivals arbitrary: cursor)
  case Nil
  show ?case by simp
next
  case (Cons x arrivals)
  obtain now dur where x: "x = (now, dur)" by (cases x)
  show ?case using Cons.IH by (simp add: x Let_def)
qed

lemma playback_run_append:
  "playback_run atob s (xs @ ys) = playback_run atob (playback_run atob s xs) ys"
  by (induction xs arbitrary: s) simp_all

lemma scheduled_spec:
  assumes "list_all (\<lambda>ev. \<not> interrupts ev) evs"
  shows "scheduled atob s evs = spec_schedule (nextStartTimeRef s) (clip_arrivals atob evs)"
proof -
  have "clip_times (started (playback_run atob s evs)) =
     clip_times (started s) @ spec_schedule (nextStartTimeRef s) (clip_arrivals atob evs)"
    using playback_run_schedule [OF assms] by (rule conjunct1)
  then have "drop (length (clip_times (started s))) (clip_times (started (playback_run atob s evs))) =
     spec_schedule (nextStartTimeRef s) (clip_arrivals atob evs)"
    by simp
  then show ?thesis
    by (simp add: scheduled_def clip_times_def drop_map)
qed

text \<open>
  C2. Over any sequence of scheduler events without an interruption, the cursor never
  decreases from one point of the sequence to a later one. The clips started are exactly
  those of the specification's rule (snap the cursor forward to now when it is behind,
  start the clip at the cursor, advance the cursor by the clip's duration), the final
  cursor is the one that rule gives, and no clip starts before the previous one has ended.
\<close>

theorem cursor_monotone_clips_back_to_back:
  assumes "list_all (\<lambda>ev. \<not> interrupts ev) evs"
  shows "(\<forall>xs ys. evs = xs @ ys \<longrightarrow>
            nextStartTimeRef (playback_run atob s xs) \<le>
            nextStartTimeRef (playback_run atob s evs)) \<and>
         scheduled atob s evs = spec_schedule (nextStartTimeRef s) (clip_arrivals atob evs) \<and>
         nextStartTimeRef (playback_run atob s evs) =
           spec_cursor (nextStartTimeRef s) (clip_arrivals atob evs) \<and>
         back_to_back (nextStartTimeRef s) (scheduled atob s evs)"
proof (intro conjI allI impI)
  fix xs ys
  assume split: "evs = xs @ ys"
  then have ys: "list_all (\<lambda>ev. \<not> interrupts ev) ys" using assms by simp
  have "nextStartTimeRef (playback_run atob (playback_run atob s xs) ys) =
      spec_cursor (nextStartTimeRef (playback_run atob s xs)) (clip_arrivals atob ys)"
    using playback_run_schedule [OF ys] by (rule conjunct2)
  moreover have "nextStartTimeRef (playback_run atob s xs) \<le>
      spec_cursor (nextStartTimeRef (playback_run atob s xs)) (clip_arrivals atob ys)"
    by (rule spec_cursor_mono) (rule clip_arrivals_pos)
  ultimately show "nextStartTimeRef (playback_run atob s xs) \<le>
      nextStartTimeRef (playback_run atob s evs)"
    by (simp add: split playback_run_append)
next
  show "scheduled atob s evs = spec_schedule (nextStartTimeRef s) (clip_arrivals atob evs)"
    using assms by (rule scheduled_spec)
next
  show "nextStartTimeRef (playback_run atob s evs) =
      spec_cursor (nextStartTimeRef s) (clip_arrivals atob evs)"
    using playback_run_schedule [OF assms] by (rule conjunct2)
next
  show "back_to_back (nextStartTimeRef s) (scheduled atob s evs)"
    by (simp add: scheduled_spec [OF assms] back_to_back_spec_schedule)
qed

theorem cursor_monotone_clips_back_to_back_witness:
  "list_all (\<lambda>ev. \<not> interrupts ev)
     [Message 0 1000 \<lparr>audioData = Some ''abcd'', turnComplete = False, interrupted = False\<rparr>,
      Message (1 / 24000) 1001 \<lparr>audioData = Some ''ab'', turnComplete = True, interrupted = False\<rparr>,
      Ended 0,
      Message 5 1002 \<lparr>audioData = Some ''abcd'', turnComplete = False, interrupted = False\<rparr>] \<and>
   scheduled (\<lambda>t. Some t) initial_playback
     [Message 0 1000 \<lparr>audioData = Some ''abcd'', turnComplete = False, interrupted = False\<rparr>,
      Message (1 / 24000) 1001 \<lparr>audioData = Some ''ab'', turnComplete = True, interrupted = False\<rparr>,
      Ended 0,
      Message 5 1002 \<lparr>audioData = Some ''abcd'', turnComplete = False, interrupted = False\<rparr>] =
     [(0, 1 / 12000), (1 / 12000, 1 / 24000), (5, 1 / 12000)] \<and>
   nextStartTimeRef (playback_run (\<lambda>t. Some t) initial_playback
     [Message 0 1000 \<lparr>audioData = Some ''abcd'', turnComplete = False, interrupted = False\<rparr>,
      Message (1 / 24000) 1001 \<lparr>audioData = Some ''ab'', turnComplete = True, interrupted = False\<rparr>,
      Ended 0,
      Message 5 1002 \<lparr>audioData = Some ''abcd'', turnComplete = False, interrupted = False\<rparr>]) =
     60001 / 12000"
proof -
  let ?evs = "[Message 0 1000 \<lparr>audioData = Some ''abcd'', turnComplete = False, interrupted = False\<rparr>,
      Message (1 / 24000) 1001 \<lparr>audioData = Some ''ab'', turnComplete = True, interrupted = False\<rparr>,
      Ended 0,
      Message 5 1002 \<lparr>audioData = Some ''abcd'', turnComplete = False, interrupted = False\<rparr>]"
  have h: "list_all (\<lambda>ev. \<not> interrupts ev) ?evs"
    by simp
  have d4: "clip_duration (\<lambda>t. Some t) (Some ''abcd'') = Some (1 / 12000)"
    by (simp add: clip_duration_Some_iff)
  have d2: "clip_duration (\<lambda>t. Some t) (Some ''ab'') = Some (1 / 24000)"
    by (simp add: clip_duration_Some_iff)
  have arr: "clip_arrivals (\<lambda>t. Some t) ?evs =
      [(0, 1 / 12000), (1 / 24000, 1 / 24000), (5, 1 / 12000)]"
    by (simp add: d4 d2)
  note t = cursor_monotone_clips_back_to_back [OF h, of "\<lambda>t. Some t" initial_playback]
  have c0: "nextStartTimeRef initial_playback = 0"
    by (simp add: initial_playback_def)
  have a: "scheduled (\<lambda>t. Some t) initial_playback ?evs =
      [(0, 1 / 12000), (1 / 12000, 1 / 24000), (5, 1 / 12000)]"
    using t [THEN conjunct2, THEN conjunct1] unfolding arr c0 by (simp add: Let_def)
  have b: "nextStartTimeRef (playback_run (\<lambda>t. Some t) initial_playback ?evs) = 60001 / 12000"
    using t [THEN conjunct2, THEN conjunct2, THEN conjunct1] unfolding arr c0 by (simp add: Let_def)
  show ?thesis
    by (intro conjI) (fact h, fact a, fact b)
qed



lemma odd_length_malformed: "atob a = Some b \<Longrightarrow> odd (length b) \<Longrightarrow> malformed atob a"
  by (simp add: malformed_def odd_iff_mod_2_eq_one)

text \<open>
  C5. A message whose audio payload is malformed (no base64, or an odd or zero number of
  decoded bytes) raises inside the handler before anything is scheduled: no clip is
  started or tracked and the cursor is unchanged. The handler's promise rejects, and the
  events that follow are handled from the same state, but for the speaking signal, which
  the handler had already set.
\<close>

theorem malformed_audio_is_skipped:
  assumes "audioData msg = Some a" and "a \<noteq> []" and "malformed atob a"
  shows "(\<exists>e. onmessage atob currentTime dateNow s msg = (s\<lparr>isAiSpeaking := True\<rparr>, Some e)) \<and>
         nextStartTimeRef (fst (onmessage atob currentTime dateNow s msg)) = nextStartTimeRef s \<and>
         sourceNodesRef (fst (onmessage atob currentTime dateNow s msg)) = sourceNodesRef s \<and>
         started (fst (onmessage atob currentTime dateNow s msg)) = started s \<and>
         playback_run atob s (Message currentTime dateNow msg # evs) =
           playback_run atob (s\<lparr>isAiSpeaking := True\<rparr>) evs"
proof -
  from onmessage_malformed [OF assms, of currentTime dateNow s]
  obtain e where e: "onmessage atob currentTime dateNow s msg = (s\<lparr>isAiSpeaking := True\<rparr>, Some e)"
    by blast
  then have "\<exists>e. onmessage atob currentTime dateNow s msg = (s\<lparr>isAiSpeaking := True\<rparr>, Some e)"
    by (rule exI)
  then show ?thesis by (simp add: e)
qed

theorem malformed_audio_is_skipped_witness:
  "audioData \<lparr>audioData = Some ''abc'', turnComplete = True, interrupted = False\<rparr> = Some ''abc'' \<and>
   ''abc'' \<noteq> [] \<and>
   malformed (\<lambda>t. Some t) ''abc'' \<and>
   onmessage (\<lambda>t. Some t) 3 1000 initial_playback
     \<lparr>audioData = Some ''abc'', turnComplete = True, interrupted = False\<rparr> =
     (initial_playback\<lparr>isAiSpeaking := True\<rparr>, Some RangeError) \<and>
   nextStartTimeRef (playback_run (\<lambda>t. Some t) initial_playback
     [Message 3 1000 \<lparr>audioData = Some ''abc'', turnComplete = True, interrupted = False\<rparr>,
      Message 4 1001 \<lparr>audioData = Some ''abcd'', turnComplete = False, interrupted = False\<rparr>]) =
     nextStartTimeRef (playback_run (\<lambda>t. Some t) (initial_playback\<lparr>isAiSpeaking := True\<rparr>)
       [Message 4 1001 \<lparr>audioData = Some ''abcd'', turnComplete = False, interrupted = False\<rparr>])"
proof -
  let ?m = "\<lparr>audioData = Some ''abc'', turnComplete = True, interrupted = False\<rparr>"
  have 1: "audioData ?m = Some ''abc''" by simp
  have 2: "''abc'' \<noteq> []" by simp
  have 3: "malformed (\<lambda>t. Some t) ''abc''"
    by (rule odd_length_malformed [of _ _ "''abc''"]) simp_all
  note t = malformed_audio_is_skipped [OF 1 2 3, of 3 1000 initial_playback
      "[Message 4 1001 \<lparr>audioData = Some ''abcd'', turnComplete = False, interrupted = False\<rparr>]"]
  have 4: "onmessage (\<lambda>t. Some t) 3 1000 initial_playback ?m =
     (initial_playback\<lparr>isAiSpeaking := True\<rparr>, Some RangeError)"
    by (simp add: onmessage_def truthy_def handle_audio_def base64ToUint8Array_def
        new_Int16Array_def)
  show ?thesis
    using 1 2 3 4 t [THEN conjunct2, THEN conjunct2, THEN conjunct2, THEN conjunct2] by simp
qed

end
